theory Spec2Isabelle
  imports Complex_Main
begin

section \<open>Region text capture (\<open>captureTextInBox\<close>)\<close>

text \<open>
  JavaScript numbers are modelled as \<^typ>\<open>real\<close>: every coordinate is a finite number and
  arithmetic is exact. Strings are lists of code units, restricted to the 8-bit range of
  \<^typ>\<open>char\<close>. The field names of the TypeScript interfaces get a prefix, because Isabelle
  records share one name space: \<open>OCRBBox\<close> keeps \<open>x0 y0 x1 y1\<close>, \<open>OCRWord\<close> has
  \<open>w_id w_text w_confidence w_bbox\<close>, the local type \<open>Entry\<close> has \<open>e_text e_id e_y0 e_x0\<close>
  and \<open>CaptureResult\<close> has \<open>r_text r_wordIds\<close>.
\<close>

record OCRBBox =
  x0 :: real
  y0 :: real
  x1 :: real
  y1 :: real

record OCRWord =
  w_id :: string
  w_text :: string
  w_confidence :: real
  w_bbox :: OCRBBox

record Entry =
  e_text :: string
  e_id :: string
  e_y0 :: real
  e_x0 :: real

record CaptureResult =
  r_text :: string
  r_wordIds :: "string list"

text \<open>\<open>Math.round\<close>: the nearest integer, a tie going up.\<close>

definition Math_round :: "real \<Rightarrow> int" where
  "Math_round x = \<lfloor>x + 1 / 2\<rfloor>"

text \<open>
  \<open>String.prototype.slice(start, end)\<close> on integer arguments: a negative index counts from
  the end, both indices are clamped into \<open>[0, length]\<close>, and the result is empty when the
  end does not exceed the start.
\<close>

definition slice_index :: "int \<Rightarrow> int \<Rightarrow> int" where
  "slice_index len i = (if i < 0 then max (len + i) 0 else min i len)"

definition js_slice :: "string \<Rightarrow> int \<Rightarrow> int \<Rightarrow> string" where
  "js_slice s start stop =
     (let len = int (length s);
          k_from = slice_index len start;
          k_final = slice_index len stop
      in take (nat (k_final - k_from)) (drop (nat k_from) s))"

text \<open>
  \<open>String.prototype.trim\<close> removes white space and line terminators at both ends; in the
  8-bit range these are TAB, LF, VT, FF, CR, SP and NBSP.
\<close>

definition is_white_space :: "char \<Rightarrow> bool" where
  "is_white_space c = (of_char c \<in> {9, 10, 11, 12, 13, 32, 160 :: nat})"

definition js_trim :: "string \<Rightarrow> string" where
  "js_trim s = rev (dropWhile is_white_space (rev (dropWhile is_white_space s)))"

text \<open>\<open>Array.prototype.join\<close> with a separator.\<close>

fun js_join :: "string \<Rightarrow> string list \<Rightarrow> string" where
  "js_join sep [] = []"
| "js_join sep [s] = s"
| "js_join sep (s # t # ts) = s @ sep @ js_join sep (t # ts)"

text \<open>
  The body of the \<open>for\<close> loop for one word: \<open>None\<close> is a \<open>continue\<close> (or an empty
  extracted text, which is not pushed), \<open>Some e\<close> is the entry pushed to \<open>captured\<close>.
\<close>

definition capture_word :: "OCRWord \<Rightarrow> OCRBBox \<Rightarrow> Entry option" where
  "capture_word word box =
     (let cy = (y0 (w_bbox word) + y1 (w_bbox word)) / 2 in
      if cy < y0 box \<or> cy > y1 box then None
      else
        let overlapX0 = max (x0 (w_bbox word)) (x0 box);
            overlapX1 = min (x1 (w_bbox word)) (x1 box) in
        if overlapX0 \<ge> overlapX1 then None
        else
          let wordW = x1 (w_bbox word) - x0 (w_bbox word);
              n = length (w_text word) in
          if n = 0 then None
          else
            let extracted =
              (if x0 (w_bbox word) \<ge> x0 box \<and> x1 (w_bbox word) \<le> x1 box then w_text word
               else
                 let startRatio = max 0 ((x0 box - x0 (w_bbox word)) / wordW);
                     endRatio = min 1 ((x1 box - x0 (w_bbox word)) / wordW);
                     startChar = Math_round (startRatio * real n);
                     endChar = Math_round (endRatio * real n)
                 in js_trim (js_slice (w_text word) startChar endChar))
            in
            if extracted \<noteq> [] then
              Some \<lparr>e_text = extracted, e_id = w_id word, e_y0 = y0 (w_bbox word), e_x0 = overlapX0\<rparr>
            else None)"

fun capture_loop :: "OCRWord list \<Rightarrow> OCRBBox \<Rightarrow> Entry list" where
  "capture_loop [] box = []"
| "capture_loop (word # words) box =
     (case capture_word word box of
        None \<Rightarrow> capture_loop words box
      | Some e \<Rightarrow> e # capture_loop words box)"

definition ROW_TOL :: real where
  "ROW_TOL = 0.008"

text \<open>The comparison function handed to \<open>captured.sort\<close>.\<close>

definition compare_entries :: "Entry \<Rightarrow> Entry \<Rightarrow> real" where
  "compare_entries a b =
     (if \<bar>e_y0 a - e_y0 b\<bar> > ROW_TOL then e_y0 a - e_y0 b else e_x0 a - e_x0 b)"

text \<open>
  \<open>Array.prototype.sort\<close> belongs to the engine, not to the repository. The language
  fixes its result only for a consistent comparison function, where every stable sort
  returns the same list; otherwise the order is left to the implementation. The model
  follows the TimSort of V8 on an array of fewer than 64 elements: \<open>CountAndMakeRun\<close>
  takes the longest run at the start of the array, ascending (\<open>Compare(current, previous)\<close>
  never negative) or strictly descending, and reverses a descending run;
  \<open>BinaryInsertionSort\<close> then inserts each remaining element at the place a binary
  search finds for it. A longer array is cut into such runs that are merged, with the same
  result for a consistent comparison function.
\<close>

fun count_run :: "bool \<Rightarrow> ('a \<Rightarrow> 'a \<Rightarrow> real) \<Rightarrow> 'a \<Rightarrow> 'a list \<Rightarrow> 'a list \<times> 'a list" where
  "count_run isDescending cmp previousElement [] = ([], [])"
| "count_run isDescending cmp previousElement (currentElement # rest) =
     (let order = cmp currentElement previousElement in
      if (if isDescending then order \<ge> 0 else order < 0) then ([], currentElement # rest)
      else
        (case count_run isDescending cmp currentElement rest of
           (run, rest') \<Rightarrow> (currentElement # run, rest')))"

text \<open>
  \<open>elementHigh\<close> is the first element of the array and \<open>elementLow\<close> the second, as in
  the engine's source. The result is the run, put in ascending order, and the elements
  after it.
\<close>

definition CountAndMakeRun ::
  "('a \<Rightarrow> 'a \<Rightarrow> real) \<Rightarrow> 'a \<Rightarrow> 'a \<Rightarrow> 'a list \<Rightarrow> 'a list \<times> 'a list" where
  "CountAndMakeRun cmp elementHigh elementLow rest =
     (let isDescending = cmp elementLow elementHigh < 0 in
      case count_run isDescending cmp elementLow rest of
        (run, rest') \<Rightarrow>
          (if isDescending then rev (elementHigh # elementLow # run)
           else elementHigh # elementLow # run, rest'))"

function binary_search :: "('a \<Rightarrow> 'a \<Rightarrow> real) \<Rightarrow> 'a \<Rightarrow> 'a list \<Rightarrow> nat \<Rightarrow> nat \<Rightarrow> nat" where
  "binary_search cmp pivot a left right =
     (if left < right then
        (if cmp pivot (a ! (left + (right - left) div 2)) < 0
         then binary_search cmp pivot a left (left + (right - left) div 2)
         else binary_search cmp pivot a (left + (right - left) div 2 + 1) right)
      else left)"
  by pat_completeness auto
termination
  by (relation "measure (\<lambda>(cmp, pivot, a, left, right). right - left)") auto

declare binary_search.simps [simp del]

definition binary_insert :: "('a \<Rightarrow> 'a \<Rightarrow> real) \<Rightarrow> 'a \<Rightarrow> 'a list \<Rightarrow> 'a list" where
  "binary_insert cmp pivot a =
     (let left = binary_search cmp pivot a 0 (length a)
      in take left a @ pivot # drop left a)"

definition BinaryInsertionSort :: "('a \<Rightarrow> 'a \<Rightarrow> real) \<Rightarrow> 'a list \<Rightarrow> 'a list \<Rightarrow> 'a list" where
  "BinaryInsertionSort cmp run rest = foldl (\<lambda>a pivot. binary_insert cmp pivot a) run rest"

fun Array_sort :: "('a \<Rightarrow> 'a \<Rightarrow> real) \<Rightarrow> 'a list \<Rightarrow> 'a list" where
  "Array_sort cmp [] = []"
| "Array_sort cmp [x] = [x]"
| "Array_sort cmp (x # y # rest) =
     (case CountAndMakeRun cmp x y rest of
        (run, rest') \<Rightarrow> BinaryInsertionSort cmp run rest')"

text \<open>The local array \<open>captured\<close> after the loop and the in-place sort.\<close>

definition captured_sorted :: "OCRWord list \<Rightarrow> OCRBBox \<Rightarrow> Entry list" where
  "captured_sorted words box = Array_sort compare_entries (capture_loop words box)"

definition captureTextInBox :: "OCRWord list \<Rightarrow> OCRBBox \<Rightarrow> CaptureResult" where
  "captureTextInBox words box =
     (let captured = captured_sorted words box
      in \<lparr>r_text = js_join '' '' (map e_text captured), r_wordIds = map e_id captured\<rparr>)"

section \<open>Field store (\<open>useFieldStore\<close>)\<close>

text \<open>
  \<open>FieldAnnotation\<close> has the fields \<open>f_id f_pageNumber f_label f_value f_bbox f_wordIds
  f_color f_createdAt\<close>. \<open>Math.min()\<close> and \<open>Math.max()\<close> of no arguments are
  \<open>Infinity\<close> and \<open>-Infinity\<close>, so \<open>mergeBBoxes([])\<close> is the one box
  \<open>{Infinity, Infinity, -Infinity, -Infinity}\<close>; \<open>None\<close> stands for it.
\<close>

record FieldAnnotation =
  f_id :: string
  f_pageNumber :: nat
  f_label :: string
  f_value :: string
  f_bbox :: "OCRBBox option"
  f_wordIds :: "string list"
  f_color :: string
  f_createdAt :: nat

definition FIELD_COLORS :: "string list" where
  "FIELD_COLORS =
     [''#6c63ff'', ''#e74c3c'', ''#2ecc71'', ''#f39c12'',
      ''#1abc9c'', ''#e91e63'', ''#3498db'', ''#ff5722'',
      ''#9b59b6'', ''#00bcd4'']"

fun mergeBBoxes :: "OCRBBox list \<Rightarrow> OCRBBox option" where
  "mergeBBoxes [] = None"
| "mergeBBoxes (b # bs) =
     Some \<lparr>x0 = fold min (map x0 bs) (x0 b),
           y0 = fold min (map y0 bs) (y0 b),
           x1 = fold max (map x1 bs) (x1 b),
           y1 = fold max (map y1 bs) (y1 b)\<rparr>"

text \<open>
  The state of the store: the map \<open>fields\<close> from page number to annotations (named
  \<open>fieldsMap\<close> here) and the counter.
\<close>

record FieldState =
  fieldsMap :: "nat \<rightharpoonup> FieldAnnotation list"
  colorIndex :: nat

definition initial_store :: FieldState where
  "initial_store = \<lparr>fieldsMap = Map.empty, colorIndex = 0\<rparr>"

definition getPageFields :: "FieldState \<Rightarrow> nat \<Rightarrow> FieldAnnotation list" where
  "getPageFields s pageNumber = (case fieldsMap s pageNumber of None \<Rightarrow> [] | Some fs \<Rightarrow> fs)"

definition storeField :: "FieldState \<Rightarrow> FieldAnnotation \<Rightarrow> FieldAnnotation \<times> FieldState" where
  "storeField s field =
     (let existing = (case fieldsMap s (f_pageNumber field) of None \<Rightarrow> [] | Some fs \<Rightarrow> fs)
      in (field,
          s\<lparr>fieldsMap := (fieldsMap s)(f_pageNumber field \<mapsto> existing @ [field]),
            colorIndex := colorIndex s + 1\<rparr>))"

text \<open>
  \<open>crypto.randomUUID()\<close> and \<open>Date.now()\<close> are inputs of the model: \<open>newId\<close> and
  \<open>now\<close>.
\<close>

definition addField ::
  "nat \<Rightarrow> string \<Rightarrow> OCRWord list \<Rightarrow> string \<Rightarrow> nat \<Rightarrow> FieldState \<Rightarrow> FieldAnnotation \<times> FieldState" where
  "addField pageNumber label words newId now s =
     (let color = FIELD_COLORS ! (colorIndex s mod length FIELD_COLORS);
          field = \<lparr>f_id = newId, f_pageNumber = pageNumber, f_label = label,
                   f_value = js_join '' '' (map w_text words),
                   f_bbox = mergeBBoxes (map w_bbox words),
                   f_wordIds = map w_id words,
                   f_color = color, f_createdAt = now\<rparr>
      in storeField s field)"

text \<open>The optional parameters \<open>value = ''\<close> and \<open>wordIds = []\<close> are options.\<close>

definition addFieldRect ::
  "nat \<Rightarrow> string \<Rightarrow> OCRBBox \<Rightarrow> string option \<Rightarrow> string list option \<Rightarrow> string \<Rightarrow> nat \<Rightarrow>
   FieldState \<Rightarrow> FieldAnnotation \<times> FieldState" where
  "addFieldRect pageNumber label bbox val wordIds newId now s =
     (let color = FIELD_COLORS ! (colorIndex s mod length FIELD_COLORS);
          field = \<lparr>f_id = newId, f_pageNumber = pageNumber, f_label = label,
                   f_value = (case val of None \<Rightarrow> [] | Some v \<Rightarrow> v),
                   f_bbox = Some bbox,
                   f_wordIds = (case wordIds of None \<Rightarrow> [] | Some ws \<Rightarrow> ws),
                   f_color = color, f_createdAt = now\<rparr>
      in storeField s field)"

definition removeField :: "string \<Rightarrow> nat \<Rightarrow> FieldState \<Rightarrow> FieldState" where
  "removeField i pageNumber s =
     s\<lparr>fieldsMap := (fieldsMap s)(pageNumber \<mapsto>
          filter (\<lambda>f. f_id f \<noteq> i)
            (case fieldsMap s pageNumber of None \<Rightarrow> [] | Some fs \<Rightarrow> fs))\<rparr>"

definition updateLabel :: "string \<Rightarrow> nat \<Rightarrow> string \<Rightarrow> FieldState \<Rightarrow> FieldState" where
  "updateLabel i pageNumber label s =
     s\<lparr>fieldsMap := (fieldsMap s)(pageNumber \<mapsto>
          map (\<lambda>f. if f_id f = i then f\<lparr>f_label := label\<rparr> else f)
            (case fieldsMap s pageNumber of None \<Rightarrow> [] | Some fs \<Rightarrow> fs))\<rparr>"

definition clearPage :: "nat \<Rightarrow> FieldState \<Rightarrow> FieldState" where
  "clearPage pageNumber s = s\<lparr>fieldsMap := (fieldsMap s)(pageNumber := None)\<rparr>"

definition clearAll :: "FieldState \<Rightarrow> FieldState" where
  "clearAll s = s\<lparr>fieldsMap := Map.empty, colorIndex := 0\<rparr>"

text \<open>
  A session is a sequence of calls on the store. \<open>apply_call\<close> returns the new state and
  the annotation the call created, if any; \<open>created_fields\<close> lists the annotations created
  by a sequence of calls, in the order of creation.
\<close>

datatype store_call =
    AddField nat string "OCRWord list" string nat
  | AddFieldRect nat string OCRBBox "string option" "string list option" string nat
  | RemoveField string nat
  | UpdateLabel string nat string
  | ClearPage nat
  | ClearAll

fun apply_call :: "store_call \<Rightarrow> FieldState \<Rightarrow> FieldAnnotation list \<times> FieldState" where
  "apply_call (AddField p l ws newId now) s =
     (case addField p l ws newId now s of (f, s') \<Rightarrow> ([f], s'))"
| "apply_call (AddFieldRect p l b v ids newId now) s =
     (case addFieldRect p l b v ids newId now s of (f, s') \<Rightarrow> ([f], s'))"
| "apply_call (RemoveField i p) s = ([], removeField i p s)"
| "apply_call (UpdateLabel i p l) s = ([], updateLabel i p l s)"
| "apply_call (ClearPage p) s = ([], clearPage p s)"
| "apply_call ClearAll s = ([], clearAll s)"

fun created_fields :: "FieldState \<Rightarrow> store_call list \<Rightarrow> FieldAnnotation list" where
  "created_fields s [] = []"
| "created_fields s (c # cs) =
     (case apply_call c s of (fs, s') \<Rightarrow> fs @ created_fields s' cs)"

text \<open>The page argument of a call, for the calls that have one.\<close>

fun call_page :: "store_call \<Rightarrow> nat option" where
  "call_page (AddField p l ws newId now) = Some p"
| "call_page (AddFieldRect p l b v ids newId now) = Some p"
| "call_page (RemoveField i p) = Some p"
| "call_page (UpdateLabel i p l) = Some p"
| "call_page (ClearPage p) = Some p"
| "call_page ClearAll = None"

section \<open>Interaction layer (\<open>BoundingBoxOverlay\<close>)\<close>

datatype AnnotationMode = ModeNone | Highlight | Rectangle | Freehand | Comment | Field

record Point =
  p_x :: real
  p_y :: real

record DragState =
  d_start :: Point
  d_current :: Point

record DOMRect =
  rect_left :: real
  rect_top :: real
  rect_width :: real
  rect_height :: real

text \<open>
  A mouse event, with what the handlers read from it and from the DOM when it arrives:
  \<open>onBackground\<close> is \<open>e.target === e.currentTarget\<close>, \<open>overlayRect\<close> is
  \<open>overlayRef.current?.getBoundingClientRect()\<close>.
\<close>

record MouseEvent =
  clientX :: real
  clientY :: real
  shiftKey :: bool
  onBackground :: bool
  overlayRect :: "DOMRect option"

text \<open>
  The component: its props \<open>words\<close>, \<open>pageNumber\<close>, \<open>mode\<close>, its state hooks and its
  two refs. The hover tooltip is left out.
\<close>

record Overlay =
  words :: "OCRWord list"
  pageNumber :: nat
  mode :: AnnotationMode
  selectedIds :: "string set"
  labelPopup :: "Point option"
  labelInput :: string
  dragState :: "DragState option"
  pendingRect :: "OCRBBox option"
  pendingWordsRef :: "OCRWord list"
  capturedTextRef :: string

definition initial_overlay :: "OCRWord list \<Rightarrow> nat \<Rightarrow> AnnotationMode \<Rightarrow> Overlay" where
  "initial_overlay ws p m =
     \<lparr>words = ws, pageNumber = p, mode = m, selectedIds = {}, labelPopup = None,
      labelInput = [], dragState = None, pendingRect = None, pendingWordsRef = [],
      capturedTextRef = []\<rparr>"

definition MIN_RECT :: real where
  "MIN_RECT = 0.01"

definition isFieldMode :: "Overlay \<Rightarrow> bool" where
  "isFieldMode s = (mode s = Field)"

text \<open>
  \<open>toNorm\<close>: the event position relative to the overlay, clamped into the unit square.
  An overlay of width or height zero receives no pointer event; the quotient by such an
  extent is not a finite number in JavaScript and has no meaning here.
\<close>

definition toNorm :: "MouseEvent \<Rightarrow> Point" where
  "toNorm e =
     (case overlayRect e of
        None \<Rightarrow> \<lparr>p_x = 0, p_y = 0\<rparr>
      | Some rect \<Rightarrow>
          \<lparr>p_x = max 0 (min 1 ((clientX e - rect_left rect) / rect_width rect)),
           p_y = max 0 (min 1 ((clientY e - rect_top rect) / rect_height rect))\<rparr>)"

text \<open>The popup position \<open>e.clientX - (overlayRect?.left ?? 0)\<close>, likewise for \<open>y\<close>.\<close>

definition popup_at :: "MouseEvent \<Rightarrow> Point" where
  "popup_at e =
     \<lparr>p_x = clientX e - (case overlayRect e of None \<Rightarrow> 0 | Some rect \<Rightarrow> rect_left rect),
      p_y = clientY e - (case overlayRect e of None \<Rightarrow> 0 | Some rect \<Rightarrow> rect_top rect)\<rparr>"

definition handleWordClick :: "MouseEvent \<Rightarrow> OCRWord \<Rightarrow> Overlay \<Rightarrow> Overlay" where
  "handleWordClick e word s =
     (if \<not> isFieldMode s then s
      else
        let prev = selectedIds s;
            next = (if shiftKey e then
                      (if w_id word \<in> prev then prev - {w_id word} else insert (w_id word) prev)
                    else if w_id word \<in> prev \<and> card prev = 1 then prev - {w_id word}
                    else {w_id word})
        in s\<lparr>selectedIds := next, labelPopup := None\<rparr>)"

definition handleMouseDown :: "MouseEvent \<Rightarrow> Overlay \<Rightarrow> Overlay" where
  "handleMouseDown e s =
     (if \<not> isFieldMode s then s
      else if \<not> onBackground e then s
      else
        let pt = toNorm e
        in s\<lparr>dragState := Some \<lparr>d_start = pt, d_current = pt\<rparr>,
             selectedIds := {}, labelPopup := None, pendingRect := None\<rparr>)"

definition handleMouseMove :: "MouseEvent \<Rightarrow> Overlay \<Rightarrow> Overlay" where
  "handleMouseMove e s =
     (case dragState s of
        None \<Rightarrow> s
      | Some prev \<Rightarrow> s\<lparr>dragState := Some (prev\<lparr>d_current := toNorm e\<rparr>)\<rparr>)"

text \<open>The rectangle spanned by the start of the drag and the point of release.\<close>

definition drag_bbox :: "DragState \<Rightarrow> Point \<Rightarrow> OCRBBox" where
  "drag_bbox d stop =
     \<lparr>x0 = min (p_x (d_start d)) (p_x stop),
      y0 = min (p_y (d_start d)) (p_y stop),
      x1 = max (p_x (d_start d)) (p_x stop),
      y1 = max (p_y (d_start d)) (p_y stop)\<rparr>"

definition handleMouseUp :: "MouseEvent \<Rightarrow> Overlay \<Rightarrow> Overlay" where
  "handleMouseUp e s =
     (case dragState s of
        None \<Rightarrow> s
      | Some d \<Rightarrow>
          let bbox = drag_bbox d (toNorm e) in
          if x1 bbox - x0 bbox < MIN_RECT \<or> y1 bbox - y0 bbox < MIN_RECT then
            s\<lparr>dragState := None, selectedIds := {}, labelPopup := None\<rparr>
          else
            let res = captureTextInBox (words s) bbox
            in s\<lparr>dragState := None,
                 pendingWordsRef := filter (\<lambda>w. w_id w \<in> set (r_wordIds res)) (words s),
                 capturedTextRef := r_text res,
                 pendingRect := Some bbox,
                 labelInput := [],
                 labelPopup := Some (popup_at e)\<rparr>)"

definition openPopupForSelection :: "MouseEvent \<Rightarrow> Overlay \<Rightarrow> Overlay" where
  "openPopupForSelection e s = s\<lparr>labelInput := [], labelPopup := Some (popup_at e)\<rparr>"

text \<open>
  \<open>handleSaveField\<close> writes to the field store, so it works on the pair of the component
  and the store; \<open>newId\<close> and \<open>now\<close> are what \<open>crypto.randomUUID()\<close> and
  \<open>Date.now()\<close> return inside the store.
\<close>

definition handleSaveField :: "string \<Rightarrow> nat \<Rightarrow> Overlay \<times> FieldState \<Rightarrow> Overlay \<times> FieldState" where
  "handleSaveField newId now = (\<lambda>(s, st).
     let label = js_trim (labelInput s) in
     if label = [] then (s, st)
     else
       (case pendingRect s of
          Some rect \<Rightarrow>
            let captured = pendingWordsRef s;
                st' = snd (addFieldRect (pageNumber s) label rect (Some (capturedTextRef s))
                             (Some (map w_id captured)) newId now st)
            in (s\<lparr>pendingWordsRef := [], capturedTextRef := [], pendingRect := None,
                  labelPopup := None, labelInput := []\<rparr>, st')
        | None \<Rightarrow>
            if selectedIds s \<noteq> {} then
              let selectedWords = filter (\<lambda>w. w_id w \<in> selectedIds s) (words s);
                  st' = snd (addField (pageNumber s) label selectedWords newId now st)
              in (s\<lparr>selectedIds := {}, labelPopup := None, labelInput := []\<rparr>, st')
            else (s\<lparr>labelPopup := None, labelInput := []\<rparr>, st)))"

definition cancelPopup :: "Overlay \<Rightarrow> Overlay" where
  "cancelPopup s = s\<lparr>labelPopup := None, pendingRect := None, selectedIds := {}\<rparr>"

definition hasWordSelection :: "Overlay \<Rightarrow> bool" where
  "hasWordSelection s =
     (filter (\<lambda>w. w_id w \<in> selectedIds s) (words s) \<noteq> [] \<and> pendingRect s = None)"

text \<open>
  The events of the component. An element that is not rendered receives none: the label
  form exists while \<open>labelPopup\<close> is set, the selection bar while the mode is \<open>field\<close>,
  \<open>hasWordSelection\<close> holds and no popup is open, the delete button of a field in mode
  \<open>field\<close>. \<open>ModeChange\<close> and \<open>PageChange\<close> are new props from the parent; no effect of
  the component depends on them.
\<close>

datatype event =
    WordClick MouseEvent OCRWord
  | MouseDown MouseEvent
  | MouseMove MouseEvent
  | MouseUp MouseEvent
  | LabelAsField MouseEvent
  | ClearSelection
  | ChangeLabelInput string
  | SaveField string nat
  | CancelPopup
  | DeleteField string
  | ModeChange AnnotationMode
  | PageChange "OCRWord list" nat

fun step :: "event \<Rightarrow> Overlay \<times> FieldState \<Rightarrow> Overlay \<times> FieldState" where
  "step (WordClick e w) (s, st) = (handleWordClick e w s, st)"
| "step (MouseDown e) (s, st) = (handleMouseDown e s, st)"
| "step (MouseMove e) (s, st) = (handleMouseMove e s, st)"
| "step (MouseUp e) (s, st) = (handleMouseUp e s, st)"
| "step (LabelAsField e) (s, st) =
     (if isFieldMode s \<and> hasWordSelection s \<and> labelPopup s = None
      then (openPopupForSelection e s, st) else (s, st))"
| "step ClearSelection (s, st) =
     (if isFieldMode s \<and> hasWordSelection s \<and> labelPopup s = None
      then (s\<lparr>selectedIds := {}\<rparr>, st) else (s, st))"
| "step (ChangeLabelInput v) (s, st) =
     (if labelPopup s \<noteq> None then (s\<lparr>labelInput := v\<rparr>, st) else (s, st))"
| "step (SaveField newId now) (s, st) =
     (if labelPopup s \<noteq> None then handleSaveField newId now (s, st) else (s, st))"
| "step CancelPopup (s, st) =
     (if labelPopup s \<noteq> None then (cancelPopup s, st) else (s, st))"
| "step (DeleteField i) (s, st) =
     (if isFieldMode s then (s, removeField i (pageNumber s) st) else (s, st))"
| "step (ModeChange m) (s, st) = (s\<lparr>mode := m\<rparr>, st)"
| "step (PageChange ws p) (s, st) = (s\<lparr>words := ws, pageNumber := p\<rparr>, st)"

definition run_events :: "event list \<Rightarrow> Overlay \<times> FieldState \<Rightarrow> Overlay \<times> FieldState" where
  "run_events evs c = foldl (\<lambda>c ev. step ev c) c evs"

text \<open>The state \<open>Idle\<close>: no drag, no selection, no pending rectangle, no label prompt.\<close>

definition idle :: "Overlay \<Rightarrow> bool" where
  "idle s = (dragState s = None \<and> selectedIds s = {} \<and> pendingRect s = None \<and> labelPopup s = None)"

section \<open>Coordinate normalization (\<open>extractPageText\<close>, \<open>runOCR\<close>)\<close>

text \<open>
  \<open>transform\<close> is the six-element matrix \<open>[a, b, c, d, tx, ty]\<close> and \<open>view\<close> the
  four-element array \<open>[x0, y0, x1, y1]\<close>; both are records here, \<open>t4\<close> for
  \<open>transform[4]\<close> and \<open>view2\<close> for \<open>view[2]\<close>.
\<close>

record Transform =
  t0 :: real
  t1 :: real
  t2 :: real
  t3 :: real
  t4 :: real
  t5 :: real






















section \<open>Properties of the text capture\<close>

subsection \<open>The sort keeps the entries\<close>

lemma count_run_append: "count_run d cmp p xs = (run, rest) \<Longrightarrow> run @ rest = xs"
  by (induction xs arbitrary: p run rest) (auto simp: Let_def split: if_splits prod.splits)

lemma set_CountAndMakeRun:
  "CountAndMakeRun cmp x y xs = (run, rest) \<Longrightarrow>
   set run \<union> set rest = insert x (insert y (set xs))"
  by (auto simp: CountAndMakeRun_def Let_def split: prod.splits if_splits
      dest!: count_run_append)

lemma set_binary_insert: "set (binary_insert cmp p a) = insert p (set a)"
proof -
  have "set (take n a) \<union> set (drop n a) = set a" for n
    by (metis append_take_drop_id set_append)
  then show ?thesis by (auto simp: binary_insert_def Let_def)
qed

lemma set_BinaryInsertionSort: "set (BinaryInsertionSort cmp run rest) = set run \<union> set rest"
  unfolding BinaryInsertionSort_def
  by (induction rest arbitrary: run) (auto simp: set_binary_insert)

lemma set_Array_sort: "set (Array_sort cmp xs) = set xs"
proof (cases xs)
  case Nil
  then show ?thesis by simp
next
  case (Cons x ys)
  show ?thesis
  proof (cases ys)
    case Nil
    with Cons show ?thesis by simp
  next
    case (Cons y rest)
    obtain run rest' where r: "CountAndMakeRun cmp x y rest = (run, rest')"
      by (cases "CountAndMakeRun cmp x y rest")
    from set_CountAndMakeRun[OF r] r show ?thesis
      by (simp add: \<open>xs = x # ys\<close> Cons set_BinaryInsertionSort)
  qed
qed

text \<open>The binary search, one step at a time.\<close>

lemma binary_search_stop:
  "\<not> left < right \<Longrightarrow> binary_search cmp pivot a left right = left"
  by (simp add: binary_search.simps)

lemma binary_search_low:
  "left < right \<Longrightarrow> cmp pivot (a ! (left + (right - left) div 2)) < 0 \<Longrightarrow>
   binary_search cmp pivot a left right =
   binary_search cmp pivot a left (left + (right - left) div 2)"
  by (subst binary_search.simps) simp

lemma binary_search_high:
  "left < right \<Longrightarrow> \<not> cmp pivot (a ! (left + (right - left) div 2)) < 0 \<Longrightarrow>
   binary_search cmp pivot a left right =
   binary_search cmp pivot a (left + (right - left) div 2 + 1) right"
  by (subst binary_search.simps) simp

text \<open>
  A list whose neighbours are all in order under the comparison function is one ascending
  run and is left as it is, whether or not the function is transitive.
\<close>

lemma count_run_ascending:
  "successively (\<lambda>a b. \<not> cmp b a < 0) (p # xs) \<Longrightarrow> count_run False cmp p xs = (xs, [])"
  by (induction xs arbitrary: p) (auto simp: Let_def)

lemma Array_sort_chain:
  assumes "successively (\<lambda>a b. \<not> cmp b a < 0) xs"
  shows "Array_sort cmp xs = xs"
proof (cases xs)
  case Nil
  then show ?thesis by simp
next
  case (Cons x ys)
  show ?thesis
  proof (cases ys)
    case Nil
    with Cons show ?thesis by simp
  next
    case (Cons y rest)
    with assms \<open>xs = x # ys\<close> have "\<not> cmp y x < 0"
      and "successively (\<lambda>a b. \<not> cmp b a < 0) (y # rest)"
      by auto
    then show ?thesis
      by (simp add: \<open>xs = x # ys\<close> Cons CountAndMakeRun_def count_run_ascending
          BinaryInsertionSort_def)
  qed
qed

text \<open>Every joined text is a contiguous piece of the result of \<open>join\<close>.\<close>

lemma js_join_contains:
  "t \<in> set ts \<Longrightarrow> \<exists>pre post. js_join sep ts = pre @ t @ post"
proof (induction sep ts rule: js_join.induct)
  case (1 sep)
  then show ?case by simp
next
  case (2 sep s)
  then have "js_join sep [s] = [] @ t @ []" by simp
  then show ?case by blast
next
  case (3 sep s u ts)
  show ?case
  proof (cases "t = s")
    case True
    then have "js_join sep (s # u # ts) = [] @ t @ (sep @ js_join sep (u # ts))" by simp
    then show ?thesis by blast
  next
    case False
    with 3 obtain pre post where "js_join sep (u # ts) = pre @ t @ post" by auto
    then have "js_join sep (s # u # ts) = (s @ sep @ pre) @ t @ post" by simp
    then show ?thesis by blast
  qed
qed

subsection \<open>The loop\<close>

lemma capture_loop_append:
  "capture_loop (xs @ ys) box = capture_loop xs box @ capture_loop ys box"
  by (induction xs) (auto split: option.splits)

lemma capture_loop_mem:
  "e \<in> set (capture_loop ws box) \<longleftrightarrow> (\<exists>w \<in> set ws. capture_word w box = Some e)"
  by (induction ws) (auto split: option.splits)

lemma capture_word_id: "capture_word w box = Some e \<Longrightarrow> e_id e = w_id w"
  by (auto simp: capture_word_def Let_def split: if_splits)

lemma capture_word_inside:
  assumes "x0 box \<le> x0 (w_bbox w)" "x0 (w_bbox w) < x1 (w_bbox w)" "x1 (w_bbox w) \<le> x1 box"
    and "y0 box \<le> y0 (w_bbox w)" "y0 (w_bbox w) \<le> y1 (w_bbox w)" "y1 (w_bbox w) \<le> y1 box"
    and "w_text w \<noteq> []"
  shows "capture_word w box =
    Some \<lparr>e_text = w_text w, e_id = w_id w, e_y0 = y0 (w_bbox w), e_x0 = x0 (w_bbox w)\<rparr>"
  using assms by (simp add: capture_word_def Let_def max_def min_def)

lemma capture_word_outside:
  assumes "(y0 (w_bbox w) + y1 (w_bbox w)) / 2 < y0 box
     \<or> (y0 (w_bbox w) + y1 (w_bbox w)) / 2 > y1 box
     \<or> max (x0 (w_bbox w)) (x0 box) \<ge> min (x1 (w_bbox w)) (x1 box)"
  shows "capture_word w box = None"
  using assms by (auto simp add: capture_word_def Let_def)

text \<open>
  The proportional branch divides by the width of the word. It is reached only behind the
  test for a horizontal intersection, where that width is positive.
\<close>

lemma capture_word_width_positive:
  "max (x0 (w_bbox w)) (x0 box) < min (x1 (w_bbox w)) (x1 box) \<Longrightarrow>
   0 < x1 (w_bbox w) - x0 (w_bbox w)"
  by (simp add: max_def min_def split: if_splits)

text \<open>
  C1. The single word "HELLO" with box [0,0,1,0.1], captured with the region
  [0,0,0.5,0.1], gives the text "HEL" and the word's id: the ratios are 0 and 0.5,
  0.5 * 5 = 2.5 rounds up to 3, and the slice is [0,3).
\<close>

theorem capture_hello_left_half:
  "captureTextInBox
     [\<lparr>w_id = i, w_text = ''HELLO'', w_confidence = c,
       w_bbox = \<lparr>x0 = 0, y0 = 0, x1 = 1, y1 = 0.1\<rparr>\<rparr>]
     \<lparr>x0 = 0, y0 = 0, x1 = 0.5, y1 = 0.1\<rparr>
   = \<lparr>r_text = ''HEL'', r_wordIds = [i]\<rparr>
   \<and> Math_round (0.5 * 5) = 3
   \<and> js_slice ''HELLO'' 0 3 = ''HEL''"
  by (simp add: captureTextInBox_def captured_sorted_def capture_word_def CountAndMakeRun_def BinaryInsertionSort_def Math_round_def
      js_slice_def slice_index_def js_trim_def is_white_space_def Let_def)

text \<open>
  C2. A word with non-empty text and positive width (\<open>x0 < x1\<close>) whose box lies inside
  the capture box is captured with its full text, unsliced and untrimmed: the entry with
  that text and the id of the word is among the captured entries, the text is a piece of
  the joined result and the id is in \<open>wordIds\<close>.
\<close>

theorem capture_includes_contained_word:
  assumes "w \<in> set ws" and "w_text w \<noteq> []"
    and "x0 box \<le> x0 (w_bbox w)" "x0 (w_bbox w) < x1 (w_bbox w)" "x1 (w_bbox w) \<le> x1 box"
    and "y0 box \<le> y0 (w_bbox w)" "y0 (w_bbox w) \<le> y1 (w_bbox w)" "y1 (w_bbox w) \<le> y1 box"
  shows "\<lparr>e_text = w_text w, e_id = w_id w, e_y0 = y0 (w_bbox w), e_x0 = x0 (w_bbox w)\<rparr>
           \<in> set (captured_sorted ws box)
       \<and> r_text (captureTextInBox ws box) = js_join '' '' (map e_text (captured_sorted ws box))
       \<and> r_wordIds (captureTextInBox ws box) = map e_id (captured_sorted ws box)
       \<and> w_id w \<in> set (r_wordIds (captureTextInBox ws box))
       \<and> (\<exists>pre post. r_text (captureTextInBox ws box) = pre @ w_text w @ post)"
proof -
  let ?e = "\<lparr>e_text = w_text w, e_id = w_id w, e_y0 = y0 (w_bbox w), e_x0 = x0 (w_bbox w)\<rparr>"
  have "capture_word w box = Some ?e"
    using assms(2-) by (rule capture_word_inside[rotated -1])
  with assms(1) have "?e \<in> set (capture_loop ws box)"
    unfolding capture_loop_mem by blast
  then have mem: "?e \<in> set (captured_sorted ws box)"
    by (simp add: captured_sorted_def set_Array_sort)
  then have "e_id ?e \<in> e_id ` set (captured_sorted ws box)"
    by (rule imageI)
  then have idm: "w_id w \<in> set (r_wordIds (captureTextInBox ws box))"
    by (simp add: captureTextInBox_def Let_def)
  from mem have "e_text ?e \<in> e_text ` set (captured_sorted ws box)"
    by (rule imageI)
  then have "w_text w \<in> set (map e_text (captured_sorted ws box))"
    by simp
  then have "\<exists>pre post. js_join '' '' (map e_text (captured_sorted ws box)) = pre @ w_text w @ post"
    by (rule js_join_contains)
  then have piece: "\<exists>pre post. r_text (captureTextInBox ws box) = pre @ w_text w @ post"
    by (simp add: captureTextInBox_def Let_def)
  have res: "r_text (captureTextInBox ws box) = js_join '' '' (map e_text (captured_sorted ws box))
       \<and> r_wordIds (captureTextInBox ws box) = map e_id (captured_sorted ws box)"
    by (simp add: captureTextInBox_def Let_def)
  from mem res idm piece show ?thesis by blast
qed

theorem capture_includes_contained_word_witness:
  "captureTextInBox
     [\<lparr>w_id = ''1-0'', w_text = ''Total'', w_confidence = 96,
       w_bbox = \<lparr>x0 = 0.2, y0 = 0.1, x1 = 0.4, y1 = 0.15\<rparr>\<rparr>]
     \<lparr>x0 = 0.1, y0 = 0.1, x1 = 0.4, y1 = 0.2\<rparr>
   = \<lparr>r_text = ''Total'', r_wordIds = [''1-0'']\<rparr>
   \<and> ''1-0'' \<in> set (r_wordIds (captureTextInBox
     [\<lparr>w_id = ''1-0'', w_text = ''Total'', w_confidence = 96,
       w_bbox = \<lparr>x0 = 0.2, y0 = 0.1, x1 = 0.4, y1 = 0.15\<rparr>\<rparr>]
     \<lparr>x0 = 0.1, y0 = 0.1, x1 = 0.4, y1 = 0.2\<rparr>))"
proof -
  let ?w = "\<lparr>w_id = ''1-0'', w_text = ''Total'', w_confidence = 96,
       w_bbox = \<lparr>x0 = 0.2, y0 = 0.1, x1 = 0.4, y1 = 0.15\<rparr>\<rparr>"
  let ?box = "\<lparr>x0 = 0.1, y0 = 0.1, x1 = 0.4, y1 = 0.2\<rparr>"
  have mem: "\<lparr>e_text = w_text ?w, e_id = w_id ?w, e_y0 = y0 (w_bbox ?w), e_x0 = x0 (w_bbox ?w)\<rparr>
           \<in> set (captured_sorted [?w] ?box)
       \<and> r_text (captureTextInBox [?w] ?box) = js_join '' '' (map e_text (captured_sorted [?w] ?box))
       \<and> r_wordIds (captureTextInBox [?w] ?box) = map e_id (captured_sorted [?w] ?box)
       \<and> w_id ?w \<in> set (r_wordIds (captureTextInBox [?w] ?box))
       \<and> (\<exists>pre post. r_text (captureTextInBox [?w] ?box) = pre @ w_text ?w @ post)"
    by (rule capture_includes_contained_word) simp_all
  then have id_mem: "w_id ?w \<in> set (r_wordIds (captureTextInBox [?w] ?box))"
    by blast
  have val: "captureTextInBox [?w] ?box = \<lparr>r_text = ''Total'', r_wordIds = [''1-0'']\<rparr>"
    by (simp add: captureTextInBox_def captured_sorted_def capture_word_def CountAndMakeRun_def BinaryInsertionSort_def Let_def)
  from id_mem val show ?thesis by simp
qed

text \<open>
  C2 with \<open>x0 = x1\<close> allowed fails: a word of width zero inside the box has an empty
  horizontal intersection (\<open>overlapX0 >= overlapX1\<close>) and is dropped.
\<close>

theorem capture_drops_zero_width_word:
  "x0 \<lparr>x0 = 0, y0 = 0, x1 = 1, y1 = 1\<rparr> \<le> (0.5 :: real)
   \<and> (0.5 :: real) \<le> x1 \<lparr>x0 = 0, y0 = 0, x1 = 1, y1 = 1\<rparr>
   \<and> y0 \<lparr>x0 = 0, y0 = 0, x1 = 1, y1 = 1\<rparr> \<le> (0.1 :: real)
   \<and> (0.2 :: real) \<le> y1 \<lparr>x0 = 0, y0 = 0, x1 = 1, y1 = 1\<rparr>
   \<and> captureTextInBox
     [\<lparr>w_id = ''1-emb-0'', w_text = ''Total'', w_confidence = 100,
       w_bbox = \<lparr>x0 = 0.5, y0 = 0.1, x1 = 0.5, y1 = 0.2\<rparr>\<rparr>]
     \<lparr>x0 = 0, y0 = 0, x1 = 1, y1 = 1\<rparr>
   = \<lparr>r_text = [], r_wordIds = []\<rparr>"
  by (simp add: captureTextInBox_def captured_sorted_def capture_word_def CountAndMakeRun_def BinaryInsertionSort_def Let_def)

text \<open>
  C3. A word whose vertical midpoint lies outside \<open>[box.y0, box.y1]\<close>, or whose horizontal
  intersection with the box is empty, is excluded: the result is the one obtained without
  the word, and, ids being unique within the page, its id is not in \<open>wordIds\<close>.
\<close>

theorem capture_excludes_outside_word:
  assumes "(y0 (w_bbox w) + y1 (w_bbox w)) / 2 < y0 box
     \<or> (y0 (w_bbox w) + y1 (w_bbox w)) / 2 > y1 box
     \<or> max (x0 (w_bbox w)) (x0 box) \<ge> min (x1 (w_bbox w)) (x1 box)"
  shows "captureTextInBox (xs @ w # ys) box = captureTextInBox (xs @ ys) box
       \<and> capture_loop (xs @ w # ys) box = capture_loop (xs @ ys) box
       \<and> (distinct (map w_id (xs @ w # ys)) \<longrightarrow>
            w_id w \<notin> set (r_wordIds (captureTextInBox (xs @ w # ys) box)))"
proof -
  have none: "capture_word w box = None"
    using assms by (rule capture_word_outside)
  then have loop: "capture_loop (xs @ w # ys) box = capture_loop (xs @ ys) box"
    by (simp add: capture_loop_append)
  then have same: "captureTextInBox (xs @ w # ys) box = captureTextInBox (xs @ ys) box"
    by (simp add: captureTextInBox_def captured_sorted_def)
  have "w_id w \<notin> set (r_wordIds (captureTextInBox (xs @ w # ys) box))"
    if d: "distinct (map w_id (xs @ w # ys))"
  proof
    assume "w_id w \<in> set (r_wordIds (captureTextInBox (xs @ w # ys) box))"
    then have "w_id w \<in> e_id ` set (capture_loop (xs @ ys) box)"
      by (simp add: loop captureTextInBox_def captured_sorted_def set_Array_sort Let_def)
    then obtain e where e: "e \<in> set (capture_loop (xs @ ys) box)" and ide: "e_id e = w_id w"
      by auto
    from e obtain v where v: "v \<in> set (xs @ ys)" and cv: "capture_word v box = Some e"
      unfolding capture_loop_mem by blast
    from cv ide have "w_id v = w_id w" by (simp add: capture_word_id)
    with v have "w_id w \<in> w_id ` set (xs @ ys)" by (metis imageI)
    with d show False by auto
  qed
  with same loop show ?thesis by blast
qed

theorem capture_excludes_outside_word_witness:
  "captureTextInBox
     [\<lparr>w_id = ''1-0'', w_text = ''Above'', w_confidence = 90,
       w_bbox = \<lparr>x0 = 0.2, y0 = 0, x1 = 0.4, y1 = 0.1\<rparr>\<rparr>,
      \<lparr>w_id = ''1-1'', w_text = ''Total'', w_confidence = 96,
       w_bbox = \<lparr>x0 = 0.2, y0 = 0.3, x1 = 0.4, y1 = 0.4\<rparr>\<rparr>]
     \<lparr>x0 = 0.1, y0 = 0.2, x1 = 0.5, y1 = 0.5\<rparr>
   = \<lparr>r_text = ''Total'', r_wordIds = [''1-1'']\<rparr>
   \<and> ''1-0'' \<notin> set (r_wordIds (captureTextInBox
     [\<lparr>w_id = ''1-0'', w_text = ''Above'', w_confidence = 90,
       w_bbox = \<lparr>x0 = 0.2, y0 = 0, x1 = 0.4, y1 = 0.1\<rparr>\<rparr>,
      \<lparr>w_id = ''1-1'', w_text = ''Total'', w_confidence = 96,
       w_bbox = \<lparr>x0 = 0.2, y0 = 0.3, x1 = 0.4, y1 = 0.4\<rparr>\<rparr>]
     \<lparr>x0 = 0.1, y0 = 0.2, x1 = 0.5, y1 = 0.5\<rparr>))"
proof -
  let ?w = "\<lparr>w_id = ''1-0'', w_text = ''Above'', w_confidence = 90,
       w_bbox = \<lparr>x0 = 0.2, y0 = 0, x1 = 0.4, y1 = 0.1\<rparr>\<rparr>"
  let ?v = "\<lparr>w_id = ''1-1'', w_text = ''Total'', w_confidence = 96,
       w_bbox = \<lparr>x0 = 0.2, y0 = 0.3, x1 = 0.4, y1 = 0.4\<rparr>\<rparr>"
  let ?box = "\<lparr>x0 = 0.1, y0 = 0.2, x1 = 0.5, y1 = 0.5\<rparr>"
  have out: "(y0 (w_bbox ?w) + y1 (w_bbox ?w)) / 2 < y0 ?box
     \<or> (y0 (w_bbox ?w) + y1 (w_bbox ?w)) / 2 > y1 ?box
     \<or> max (x0 (w_bbox ?w)) (x0 ?box) \<ge> min (x1 (w_bbox ?w)) (x1 ?box)"
    by simp
  have d: "distinct (map w_id ([] @ ?w # [?v]))" by simp
  note t = capture_excludes_outside_word[OF out, of "[]" "[?v]"]
  have same: "captureTextInBox [?w, ?v] ?box = captureTextInBox [?v] ?box"
    using t unfolding append_Nil by blast
  have notin: "w_id ?w \<notin> set (r_wordIds (captureTextInBox [?w, ?v] ?box))"
    using t d unfolding append_Nil by blast
  have "captureTextInBox [?v] ?box = \<lparr>r_text = ''Total'', r_wordIds = [''1-1'']\<rparr>"
    by (simp add: captureTextInBox_def captured_sorted_def capture_word_def CountAndMakeRun_def BinaryInsertionSort_def Let_def)
  with same notin show ?thesis by simp
qed

text \<open>
  The comparison function is not consistent: on three entries of one slanted line it
  orders B before C (by row), C before A and A before B (both by the left edge).
\<close>

lemma compare_entries_cycle:
  "compare_entries \<lparr>e_text = ''B'', e_id = ''b'', e_y0 = 0, e_x0 = 0.5\<rparr>
                   \<lparr>e_text = ''C'', e_id = ''c'', e_y0 = 0.009, e_x0 = 0\<rparr> < 0
   \<and> compare_entries \<lparr>e_text = ''C'', e_id = ''c'', e_y0 = 0.009, e_x0 = 0\<rparr>
                     \<lparr>e_text = ''A'', e_id = ''a'', e_y0 = 0.006, e_x0 = 0.2\<rparr> < 0
   \<and> compare_entries \<lparr>e_text = ''A'', e_id = ''a'', e_y0 = 0.006, e_x0 = 0.2\<rparr>
                     \<lparr>e_text = ''B'', e_id = ''b'', e_y0 = 0, e_x0 = 0.5\<rparr> < 0"
  by (simp add: compare_entries_def ROW_TOL_def)

text \<open>
  C4. Reading order. The comparison function is not transitive: three words on one
  slightly slanted line, with tops 0, 0.009 and 0.006, are "B above C", "C left of A" and
  "A left of B". Given in the order B, C, A every neighbour is in order, so the sort
  leaves the list as it is and A, which is on the row of B and to its left, comes after B.
  Given in the order C, A, B the same words come out as C, A, B.
\<close>

theorem capture_order_depends_on_input_order:
  "captureTextInBox
     [\<lparr>w_id = ''b'', w_text = ''B'', w_confidence = 90,
       w_bbox = \<lparr>x0 = 0.5, y0 = 0, x1 = 0.6, y1 = 0.02\<rparr>\<rparr>,
      \<lparr>w_id = ''c'', w_text = ''C'', w_confidence = 90,
       w_bbox = \<lparr>x0 = 0, y0 = 0.009, x1 = 0.1, y1 = 0.029\<rparr>\<rparr>,
      \<lparr>w_id = ''a'', w_text = ''A'', w_confidence = 90,
       w_bbox = \<lparr>x0 = 0.2, y0 = 0.006, x1 = 0.3, y1 = 0.026\<rparr>\<rparr>]
     \<lparr>x0 = 0, y0 = 0, x1 = 1, y1 = 1\<rparr>
   = \<lparr>r_text = ''B C A'', r_wordIds = [''b'', ''c'', ''a'']\<rparr>
   \<and> captureTextInBox
     [\<lparr>w_id = ''c'', w_text = ''C'', w_confidence = 90,
       w_bbox = \<lparr>x0 = 0, y0 = 0.009, x1 = 0.1, y1 = 0.029\<rparr>\<rparr>,
      \<lparr>w_id = ''a'', w_text = ''A'', w_confidence = 90,
       w_bbox = \<lparr>x0 = 0.2, y0 = 0.006, x1 = 0.3, y1 = 0.026\<rparr>\<rparr>,
      \<lparr>w_id = ''b'', w_text = ''B'', w_confidence = 90,
       w_bbox = \<lparr>x0 = 0.5, y0 = 0, x1 = 0.6, y1 = 0.02\<rparr>\<rparr>]
     \<lparr>x0 = 0, y0 = 0, x1 = 1, y1 = 1\<rparr>
   = \<lparr>r_text = ''C A B'', r_wordIds = [''c'', ''a'', ''b'']\<rparr>
   \<and> \<bar>(0.006 :: real) - 0\<bar> \<le> ROW_TOL \<and> (0.2 :: real) < 0.5"
  by (simp add: captureTextInBox_def captured_sorted_def capture_word_def CountAndMakeRun_def
      BinaryInsertionSort_def
      compare_entries_def ROW_TOL_def Let_def)

section \<open>Properties of the field store\<close>

lemma length_FIELD_COLORS: "length FIELD_COLORS = 10"
  by (simp add: FIELD_COLORS_def)

lemma colorIndex_apply_call:
  "c \<noteq> ClearAll \<Longrightarrow>
   colorIndex (snd (apply_call c s)) = colorIndex s + length (fst (apply_call c s))"
  by (cases c) (simp_all add: addField_def addFieldRect_def storeField_def removeField_def
      updateLabel_def clearPage_def Let_def)

lemma color_apply_call:
  "f \<in> set (fst (apply_call c s)) \<Longrightarrow>
   f_color f = FIELD_COLORS ! (colorIndex s mod length FIELD_COLORS)"
  by (cases c) (simp_all add: addField_def addFieldRect_def storeField_def Let_def)

lemma length_created_le_one: "length (fst (apply_call c s)) \<le> 1"
  by (cases c) (simp_all add: addField_def addFieldRect_def storeField_def Let_def)

lemma created_fields_color:
  "ClearAll \<notin> set cs \<Longrightarrow> N < length (created_fields s cs) \<Longrightarrow>
   f_color (created_fields s cs ! N) = FIELD_COLORS ! ((colorIndex s + N) mod length FIELD_COLORS)"
proof (induction cs arbitrary: s N)
  case Nil
  then show ?case by simp
next
  case (Cons c cs)
  obtain fs s' where ac: "apply_call c s = (fs, s')" by (cases "apply_call c s")
  from Cons.prems(1) have c: "c \<noteq> ClearAll" and cs: "ClearAll \<notin> set cs" by auto
  have ci: "colorIndex s' = colorIndex s + length fs"
    using colorIndex_apply_call[OF c, of s] ac by simp
  show ?case
  proof (cases "N < length fs")
    case True
    then have "created_fields s (c # cs) ! N = fs ! N" by (simp add: ac nth_append)
    moreover have "fs ! N \<in> set (fst (apply_call c s))" using True ac by simp
    moreover have "N = 0" using True length_created_le_one[of c s] ac by simp
    ultimately show ?thesis using color_apply_call by simp
  next
    case False
    then have eq: "created_fields s (c # cs) ! N = created_fields s' cs ! (N - length fs)"
      by (simp add: ac nth_append)
    have "N - length fs < length (created_fields s' cs)"
      using Cons.prems(2) False by (simp add: ac)
    from Cons.IH[OF cs this] have
      "f_color (created_fields s' cs ! (N - length fs)) =
       FIELD_COLORS ! ((colorIndex s' + (N - length fs)) mod length FIELD_COLORS)" .
    with eq ci False show ?thesis by simp
  qed
qed

text \<open>
  C7, counted over the whole session, fails: \<open>clearAll\<close> sets the counter back to 0, and
  the third annotation created, the first one after a \<open>clearAll\<close>, has the first color
  of the palette again.
\<close>

theorem clearAll_restarts_color_cycle:
  "map f_color (created_fields initial_store
     [AddField 1 ''Name'' [] ''id0'' 0,
      AddField 1 ''Date'' [] ''id1'' 1,
      ClearAll,
      AddField 1 ''Total'' [] ''id2'' 2])
   = [''#6c63ff'', ''#e74c3c'', ''#6c63ff'']
   \<and> FIELD_COLORS ! (2 mod 10) = ''#2ecc71''
   \<and> f_color (created_fields initial_store
     [AddField 1 ''Name'' [] ''id0'' 0,
      AddField 1 ''Date'' [] ''id1'' 1,
      ClearAll,
      AddField 1 ''Total'' [] ''id2'' 2] ! 2) \<noteq> FIELD_COLORS ! (2 mod 10)"
  by (simp add: initial_store_def addField_def storeField_def clearAll_def FIELD_COLORS_def
      Let_def)

text \<open>
  C7, as the code has it. Counting from a state whose counter is 0, which is the initial
  store and the store after any \<open>clearAll\<close>, and as long as \<open>clearAll\<close> is not called, the
  N-th annotation created, counting from 0 and counting \<open>addField\<close> and \<open>addFieldRect\<close>
  together on all pages, has the palette color of index \<open>N mod 10\<close>; \<open>removeField\<close> leaves
  the counter as it is.
\<close>

theorem nth_created_field_color:
  assumes "ClearAll \<notin> set cs" and "colorIndex s = 0" and "N < length (created_fields s cs)"
  shows "f_color (created_fields s cs ! N) = FIELD_COLORS ! (N mod 10)
       \<and> length FIELD_COLORS = 10
       \<and> colorIndex (removeField i p t) = colorIndex t
       \<and> colorIndex initial_store = 0
       \<and> colorIndex (clearAll t) = 0"
proof -
  have "f_color (created_fields s cs ! N) = FIELD_COLORS ! (N mod 10)"
    using created_fields_color[OF assms(1,3)] assms(2) by (simp add: length_FIELD_COLORS)
  then show ?thesis
    by (simp add: length_FIELD_COLORS removeField_def initial_store_def clearAll_def)
qed

theorem nth_created_field_color_witness:
  "map f_color (created_fields initial_store
     [AddField 1 ''Name'' [] ''id0'' 0,
      AddFieldRect 2 ''Date'' \<lparr>x0 = 0, y0 = 0, x1 = 1, y1 = 1\<rparr> None None ''id1'' 1,
      RemoveField ''id0'' 1,
      AddField 1 ''Total'' [] ''id2'' 2])
   = [''#6c63ff'', ''#e74c3c'', ''#2ecc71'']
   \<and> f_color (created_fields initial_store
     [AddField 1 ''Name'' [] ''id0'' 0,
      AddFieldRect 2 ''Date'' \<lparr>x0 = 0, y0 = 0, x1 = 1, y1 = 1\<rparr> None None ''id1'' 1,
      RemoveField ''id0'' 1,
      AddField 1 ''Total'' [] ''id2'' 2] ! 2) = FIELD_COLORS ! (2 mod 10)"
proof -
  let ?cs = "[AddField 1 ''Name'' [] ''id0'' 0,
      AddFieldRect 2 ''Date'' \<lparr>x0 = 0, y0 = 0, x1 = 1, y1 = 1\<rparr> None None ''id1'' 1,
      RemoveField ''id0'' 1,
      AddField 1 ''Total'' [] ''id2'' 2]"
  have v: "map f_color (created_fields initial_store ?cs) = [''#6c63ff'', ''#e74c3c'', ''#2ecc71'']"
    by (simp add: initial_store_def addField_def addFieldRect_def storeField_def removeField_def
        FIELD_COLORS_def Let_def)
  have a: "ClearAll \<notin> set ?cs" by simp
  have z: "colorIndex initial_store = 0" by (simp add: initial_store_def)
  have "length (map f_color (created_fields initial_store ?cs)) = 3"
    by (simp only: v) simp
  then have b: "2 < length (created_fields initial_store ?cs)" by simp
  note t = nth_created_field_color[OF a z b]
  note c = t[THEN conjunct1]
  show ?thesis using v c by (intro conjI)
qed

subsection \<open>Removal, renaming and the per-page query\<close>

lemma getPageFields_removeField:
  "getPageFields (removeField i p s) q =
     (if q = p then filter (\<lambda>f. f_id f \<noteq> i) (getPageFields s p) else getPageFields s q)"
  by (simp add: getPageFields_def removeField_def)

lemma getPageFields_updateLabel:
  "getPageFields (updateLabel i p l s) q =
     (if q = p then map (\<lambda>f. if f_id f = i then f\<lparr>f_label := l\<rparr> else f) (getPageFields s p)
      else getPageFields s q)"
  by (simp add: getPageFields_def updateLabel_def)

lemma getPageFields_clearPage:
  "getPageFields (clearPage p s) q = (if q = p then [] else getPageFields s q)"
  by (simp add: getPageFields_def clearPage_def)

lemma getPageFields_storeField:
  "getPageFields (snd (storeField s f)) q =
     (if q = f_pageNumber f then getPageFields s q @ [f] else getPageFields s q)"
  by (simp add: getPageFields_def storeField_def Let_def)

lemma map_relabel_absent:
  "\<forall>f \<in> set fs. f_id f \<noteq> i \<Longrightarrow> map (\<lambda>f. if f_id f = i then f\<lparr>f_label := l\<rparr> else f) fs = fs"
  by (induction fs) auto

text \<open>
  C8 with the store itself unchanged fails: \<open>updateLabel\<close> always writes the entry of the
  page, so for a page that has none the map gets the empty one.
\<close>

theorem updateLabel_adds_empty_entry:
  "fieldsMap initial_store 3 = None
   \<and> fieldsMap (updateLabel ''id9'' 3 ''Sum'' initial_store) 3 = Some []
   \<and> updateLabel ''id9'' 3 ''Sum'' initial_store \<noteq> initial_store"
proof -
  have a: "fieldsMap initial_store 3 = None"
    by (simp add: initial_store_def)
  have b: "fieldsMap (updateLabel ''id9'' 3 ''Sum'' initial_store) 3 = Some []"
    by (simp add: updateLabel_def initial_store_def)
  have c: "updateLabel ''id9'' 3 ''Sum'' initial_store \<noteq> initial_store"
  proof
    assume "updateLabel ''id9'' 3 ''Sum'' initial_store = initial_store"
    with b have "fieldsMap initial_store 3 = Some []" by simp
    with a show False by simp
  qed
  from a b c show ?thesis by (intro conjI)
qed

text \<open>
  C8, as the code has it. After \<open>removeField(id, page)\<close> no annotation of the page has that
  id. \<open>updateLabel\<close> with an id that the page does not hold changes nothing that the store
  shows: every page has the annotations it had and the counter is the same; the state is
  the very same when the map has an entry for the page. \<open>getPageFields\<close> of a page without
  entry, or with the empty entry, is the empty list.
\<close>

theorem remove_update_query:
  shows "(\<forall>f \<in> set (getPageFields (removeField i p s) p). f_id f \<noteq> i)
       \<and> ((\<forall>f \<in> set (getPageFields s p). f_id f \<noteq> i) \<longrightarrow>
            (\<forall>q. getPageFields (updateLabel i p l s) q = getPageFields s q)
            \<and> colorIndex (updateLabel i p l s) = colorIndex s
            \<and> (fieldsMap s p \<noteq> None \<longrightarrow> updateLabel i p l s = s))
       \<and> (fieldsMap s p = None \<or> fieldsMap s p = Some [] \<longrightarrow> getPageFields s p = [])"
proof -
  have rem: "\<forall>f \<in> set (getPageFields (removeField i p s) p). f_id f \<noteq> i"
    by (simp add: getPageFields_removeField)
  have upd: "(\<forall>q. getPageFields (updateLabel i p l s) q = getPageFields s q)
            \<and> colorIndex (updateLabel i p l s) = colorIndex s
            \<and> (fieldsMap s p \<noteq> None \<longrightarrow> updateLabel i p l s = s)"
    if absent: "\<forall>f \<in> set (getPageFields s p). f_id f \<noteq> i"
  proof -
    have m: "map (\<lambda>f. if f_id f = i then f\<lparr>f_label := l\<rparr> else f) (getPageFields s p)
             = getPageFields s p"
      using absent by (rule map_relabel_absent)
    have "\<forall>q. getPageFields (updateLabel i p l s) q = getPageFields s q"
      by (simp add: getPageFields_updateLabel m)
    moreover have "colorIndex (updateLabel i p l s) = colorIndex s"
      by (simp add: updateLabel_def)
    moreover have "updateLabel i p l s = s" if "fieldsMap s p \<noteq> None"
    proof -
      from that obtain fs where fs: "fieldsMap s p = Some fs" by auto
      then have "getPageFields s p = fs" by (simp add: getPageFields_def)
      with m fs have "(fieldsMap s)(p \<mapsto> map (\<lambda>f. if f_id f = i then f\<lparr>f_label := l\<rparr> else f) fs)
                    = fieldsMap s"
        by (simp add: fun_upd_idem)
      with fs show ?thesis by (simp add: updateLabel_def)
    qed
    ultimately show ?thesis by blast
  qed
  have qry: "fieldsMap s p = None \<or> fieldsMap s p = Some [] \<longrightarrow> getPageFields s p = []"
    by (auto simp: getPageFields_def)
  from rem upd qry show ?thesis by blast
qed

theorem remove_update_query_witness:
  "map f_id (getPageFields (removeField ''id0'' 1
      (snd (addField 1 ''Name'' [] ''id1'' 8 (snd (addField 1 ''Date'' [] ''id0'' 7 initial_store))))) 1)
     = [''id1'']
   \<and> updateLabel ''id9'' 1 ''Sum''
      (snd (addField 1 ''Name'' [] ''id1'' 8 (snd (addField 1 ''Date'' [] ''id0'' 7 initial_store))))
     = snd (addField 1 ''Name'' [] ''id1'' 8 (snd (addField 1 ''Date'' [] ''id0'' 7 initial_store)))
   \<and> getPageFields initial_store 3 = []
   \<and> getPageFields (updateLabel ''id9'' 3 ''Sum''
      (snd (addField 1 ''Name'' [] ''id1'' 8 (snd (addField 1 ''Date'' [] ''id0'' 7 initial_store))))) 3
     = []"
proof -
  let ?s = "snd (addField 1 ''Name'' [] ''id1'' 8 (snd (addField 1 ''Date'' [] ''id0'' 7 initial_store)))"
  note t = remove_update_query[of "''id9''" 1 ?s "''Sum''"]
  note t3 = remove_update_query[of "''id9''" 3 ?s "''Sum''"]
  have none3: "getPageFields ?s 3 = []"
    by (simp add: getPageFields_def addField_def storeField_def initial_store_def Let_def)
  have absent3: "\<forall>f \<in> set (getPageFields ?s 3). f_id f \<noteq> ''id9''"
    unfolding none3 by simp
  note u3 = t3[THEN conjunct2, THEN conjunct1, THEN mp, OF absent3, THEN conjunct1, THEN spec, of 3]
  have upd3: "getPageFields (updateLabel ''id9'' 3 ''Sum'' ?s) 3 = []"
    unfolding u3 by (rule none3)
  have absent: "\<forall>f \<in> set (getPageFields ?s 1). f_id f \<noteq> ''id9''"
    by (simp add: getPageFields_def addField_def storeField_def initial_store_def Let_def)
  have entry: "fieldsMap ?s 1 \<noteq> None"
    by (simp add: addField_def storeField_def initial_store_def Let_def)
  note u = t[THEN conjunct2, THEN conjunct1, THEN mp, OF absent]
  note upd = u[THEN conjunct2, THEN conjunct2, THEN mp, OF entry]
  have rem: "map f_id (getPageFields (removeField ''id0'' 1 ?s) 1) = [''id1'']"
    by (simp add: getPageFields_def removeField_def addField_def storeField_def
        initial_store_def Let_def)
  have qry: "getPageFields initial_store 3 = []"
    by (simp add: getPageFields_def initial_store_def)
  show ?thesis using rem upd qry upd3 by (intro conjI)
qed

text \<open>
  C10. A call on the store with page argument \<open>p\<close> (\<open>addField\<close>, \<open>addFieldRect\<close>,
  \<open>removeField\<close>, \<open>updateLabel\<close>, \<open>clearPage\<close>) leaves \<open>getPageFields(q)\<close> as it was for
  every other page \<open>q\<close>.
\<close>

theorem other_pages_unchanged:
  assumes "call_page c = Some p" and "q \<noteq> p"
  shows "getPageFields (snd (apply_call c s)) q = getPageFields s q"
proof (cases c)
  case (AddField p' l ws newId now)
  with assms show ?thesis
    by (simp add: addField_def Let_def split_beta getPageFields_storeField)
next
  case (AddFieldRect p' l b v ids newId now)
  with assms show ?thesis
    by (simp add: addFieldRect_def Let_def split_beta getPageFields_storeField)
next
  case (RemoveField i p')
  with assms show ?thesis by (simp add: getPageFields_removeField)
next
  case (UpdateLabel i p' l)
  with assms show ?thesis by (simp add: getPageFields_updateLabel)
next
  case (ClearPage p')
  with assms show ?thesis by (simp add: getPageFields_clearPage)
next
  case ClearAll
  with assms show ?thesis by simp
qed

theorem other_pages_unchanged_witness:
  "map f_id (getPageFields (snd (apply_call (RemoveField ''id0'' 1)
      (snd (addField 2 ''Name'' [] ''id1'' 8 (snd (addField 1 ''Date'' [] ''id0'' 7 initial_store)))))) 2)
     = [''id1'']
   \<and> getPageFields (snd (apply_call (RemoveField ''id0'' 1)
      (snd (addField 2 ''Name'' [] ''id1'' 8 (snd (addField 1 ''Date'' [] ''id0'' 7 initial_store)))))) 2
     = getPageFields
      (snd (addField 2 ''Name'' [] ''id1'' 8 (snd (addField 1 ''Date'' [] ''id0'' 7 initial_store)))) 2"
proof -
  let ?s = "snd (addField 2 ''Name'' [] ''id1'' 8 (snd (addField 1 ''Date'' [] ''id0'' 7 initial_store)))"
  have pg: "call_page (RemoveField ''id0'' 1) = Some 1" by simp
  have ne: "(2 :: nat) \<noteq> 1" by simp
  from other_pages_unchanged[OF pg ne, of ?s]
  have same: "getPageFields (snd (apply_call (RemoveField ''id0'' 1) ?s)) 2 = getPageFields ?s 2" .
  have v: "map f_id (getPageFields ?s 2) = [''id1'']"
    by (simp add: getPageFields_def addField_def storeField_def initial_store_def Let_def)
  have c1: "map f_id (getPageFields (snd (apply_call (RemoveField ''id0'' 1) ?s)) 2) = [''id1'']"
    unfolding same by (rule v)
  show ?thesis using c1 same by (intro conjI)
qed

section \<open>Properties of the interaction layer\<close>

lemma run_events_snoc: "run_events (evs @ [ev]) c = step ev (run_events evs c)"
  by (simp add: run_events_def)

text \<open>While a drag is in progress no rectangle is pending: a drag starts by clearing it.\<close>

lemma step_drag_no_pending:
  assumes "dragState (fst c) \<noteq> None \<longrightarrow> pendingRect (fst c) = None"
  shows "dragState (fst (step ev c)) \<noteq> None \<longrightarrow> pendingRect (fst (step ev c)) = None"
proof -
  obtain s st where c: "c = (s, st)" by (cases c)
  show ?thesis
  proof (cases ev)
    case (MouseUp e)
    with c assms show ?thesis
      by (auto simp: handleMouseUp_def Let_def split: option.splits)
  next
    case (SaveField newId now)
    with c assms show ?thesis
      by (auto simp: handleSaveField_def Let_def split: option.splits)
  qed (use c assms in \<open>auto simp: handleWordClick_def handleMouseDown_def handleMouseMove_def
         openPopupForSelection_def cancelPopup_def Let_def split: option.splits\<close>)
qed

lemma run_events_drag_no_pending:
  "dragState (fst (run_events evs (initial_overlay ws p m, st0))) \<noteq> None \<longrightarrow>
   pendingRect (fst (run_events evs (initial_overlay ws p m, st0))) = None"
proof (induction evs rule: rev_induct)
  case Nil
  show ?case by (simp add: run_events_def initial_overlay_def)
next
  case (snoc ev evs)
  then show ?case
    unfolding run_events_snoc by (rule step_drag_no_pending)
qed

text \<open>
  C5. A drag that is released with a rectangle narrower or lower than 0.01 is discarded:
  the release only ends the drag, clears the selection and closes the prompt; the two refs
  that hold a capture are as before (no capture ran), no rectangle is pending and no prompt
  is open: the component is idle. The state \<open>s\<close> is any state the component reaches from
  its mount.
\<close>

theorem tiny_drag_discarded:
  assumes "(s, st) = run_events evs (initial_overlay ws p m, st0)"
    and "dragState s = Some d"
    and "bbox = drag_bbox d (toNorm e)"
    and "x1 bbox - x0 bbox < MIN_RECT \<or> y1 bbox - y0 bbox < MIN_RECT"
  shows "step (MouseUp e) (s, st) = (s\<lparr>dragState := None, selectedIds := {}, labelPopup := None\<rparr>, st)
       \<and> idle (fst (step (MouseUp e) (s, st)))
       \<and> pendingRect (fst (step (MouseUp e) (s, st))) = None
       \<and> labelPopup (fst (step (MouseUp e) (s, st))) = None
       \<and> selectedIds (fst (step (MouseUp e) (s, st))) = {}
       \<and> capturedTextRef (fst (step (MouseUp e) (s, st))) = capturedTextRef s
       \<and> pendingWordsRef (fst (step (MouseUp e) (s, st))) = pendingWordsRef s"
proof -
  have "dragState s \<noteq> None \<longrightarrow> pendingRect s = None"
    using run_events_drag_no_pending[of evs ws p m st0] assms(1)[symmetric] by simp
  with assms(2) have pend: "pendingRect s = None" by simp
  have up: "handleMouseUp e s = s\<lparr>dragState := None, selectedIds := {}, labelPopup := None\<rparr>"
    using assms(2,3,4) by (simp add: handleMouseUp_def Let_def)
  show ?thesis
    by (simp add: up pend idle_def)
qed

theorem tiny_drag_discarded_witness:
  "step (MouseUp \<lparr>clientX = 10.5, clientY = 50, shiftKey = False, onBackground = True,
           overlayRect = Some \<lparr>rect_left = 0, rect_top = 0, rect_width = 100, rect_height = 100\<rparr>\<rparr>)
     (run_events
        [MouseDown \<lparr>clientX = 10, clientY = 10, shiftKey = False, onBackground = True,
           overlayRect = Some \<lparr>rect_left = 0, rect_top = 0, rect_width = 100, rect_height = 100\<rparr>\<rparr>]
        (initial_overlay [] 1 Field, initial_store))
   = (initial_overlay [] 1 Field, initial_store)"
proof -
  let ?r = "Some \<lparr>rect_left = 0, rect_top = 0, rect_width = 100, rect_height = 100\<rparr>"
  let ?e1 = "\<lparr>clientX = 10, clientY = 10, shiftKey = False, onBackground = True, overlayRect = ?r\<rparr>"
  let ?e2 = "\<lparr>clientX = 10.5, clientY = 50, shiftKey = False, onBackground = True, overlayRect = ?r\<rparr>"
  let ?d = "\<lparr>d_start = \<lparr>p_x = 0.1, p_y = 0.1\<rparr>, d_current = \<lparr>p_x = 0.1, p_y = 0.1\<rparr>\<rparr>"
  let ?s = "(initial_overlay [] 1 Field)\<lparr>dragState := Some ?d\<rparr>"
  have run: "run_events [MouseDown ?e1] (initial_overlay [] 1 Field, initial_store) = (?s, initial_store)"
    by (simp add: run_events_def handleMouseDown_def isFieldMode_def toNorm_def initial_overlay_def
        Let_def)
  have drag: "dragState ?s = Some ?d" by simp
  have tiny: "x1 (drag_bbox ?d (toNorm ?e2)) - x0 (drag_bbox ?d (toNorm ?e2)) < MIN_RECT
      \<or> y1 (drag_bbox ?d (toNorm ?e2)) - y0 (drag_bbox ?d (toNorm ?e2)) < MIN_RECT"
    by (simp add: drag_bbox_def toNorm_def MIN_RECT_def)
  note t = tiny_drag_discarded[OF run[symmetric] drag refl tiny]
  from t have "step (MouseUp ?e2) (?s, initial_store)
      = (?s\<lparr>dragState := None, selectedIds := {}, labelPopup := None\<rparr>, initial_store)"
    by (rule conjunct1)
  then show ?thesis
    unfolding run by (simp add: initial_overlay_def)
qed

text \<open>
  Cancel and the start of a drag clear both transient states; a word click keeps the
  pending rectangle.
\<close>

lemma cancelPopup_clears_both:
  "pendingRect (cancelPopup s) = None \<and> selectedIds (cancelPopup s) = {}"
  by (simp add: cancelPopup_def)

lemma handleMouseDown_clears_both:
  "isFieldMode s \<Longrightarrow> onBackground e \<Longrightarrow>
   pendingRect (handleMouseDown e s) = None \<and> selectedIds (handleMouseDown e s) = {}"
  by (simp add: handleMouseDown_def Let_def)

lemma handleWordClick_keeps_pendingRect:
  "pendingRect (handleWordClick e w s) = pendingRect s"
  by (simp add: handleWordClick_def Let_def)

text \<open>
  C6. The two transient states are not exclusive. The user draws a rectangle, the label
  prompt opens, and the user clicks a word instead of typing a label: the click closes the
  prompt and selects the word, but the rectangle stays pending. Both states are active,
  no prompt is open, and the selection bar is hidden because a rectangle is pending.
\<close>

theorem transient_states_both_active:
  "fst (run_events
     [MouseDown \<lparr>clientX = 10, clientY = 10, shiftKey = False, onBackground = True,
        overlayRect = Some \<lparr>rect_left = 0, rect_top = 0, rect_width = 100, rect_height = 100\<rparr>\<rparr>,
      MouseUp \<lparr>clientX = 60, clientY = 60, shiftKey = False, onBackground = True,
        overlayRect = Some \<lparr>rect_left = 0, rect_top = 0, rect_width = 100, rect_height = 100\<rparr>\<rparr>,
      WordClick \<lparr>clientX = 75, clientY = 75, shiftKey = False, onBackground = False,
        overlayRect = Some \<lparr>rect_left = 0, rect_top = 0, rect_width = 100, rect_height = 100\<rparr>\<rparr>
        \<lparr>w_id = ''1-0'', w_text = ''Total'', w_confidence = 96,
         w_bbox = \<lparr>x0 = 0.7, y0 = 0.7, x1 = 0.8, y1 = 0.8\<rparr>\<rparr>]
     (initial_overlay
        [\<lparr>w_id = ''1-0'', w_text = ''Total'', w_confidence = 96,
          w_bbox = \<lparr>x0 = 0.7, y0 = 0.7, x1 = 0.8, y1 = 0.8\<rparr>\<rparr>] 1 Field, initial_store))
   = \<lparr>words = [\<lparr>w_id = ''1-0'', w_text = ''Total'', w_confidence = 96,
                  w_bbox = \<lparr>x0 = 0.7, y0 = 0.7, x1 = 0.8, y1 = 0.8\<rparr>\<rparr>],
      pageNumber = 1, mode = Field,
      selectedIds = {''1-0''},
      labelPopup = None,
      labelInput = [],
      dragState = None,
      pendingRect = Some \<lparr>x0 = 0.1, y0 = 0.1, x1 = 0.6, y1 = 0.6\<rparr>,
      pendingWordsRef = [],
      capturedTextRef = []\<rparr>
   \<and> \<not> hasWordSelection
      \<lparr>words = [\<lparr>w_id = ''1-0'', w_text = ''Total'', w_confidence = 96,
                  w_bbox = \<lparr>x0 = 0.7, y0 = 0.7, x1 = 0.8, y1 = 0.8\<rparr>\<rparr>],
      pageNumber = 1, mode = Field,
      selectedIds = {''1-0''},
      labelPopup = None,
      labelInput = [],
      dragState = None,
      pendingRect = Some \<lparr>x0 = 0.1, y0 = 0.1, x1 = 0.6, y1 = 0.6\<rparr>,
      pendingWordsRef = [],
      capturedTextRef = []\<rparr>"
  by (simp add: run_events_def handleMouseDown_def handleMouseUp_def handleWordClick_def
      isFieldMode_def toNorm_def popup_at_def drag_bbox_def MIN_RECT_def initial_overlay_def
      hasWordSelection_def captureTextInBox_def captured_sorted_def capture_word_def Let_def)

section \<open>Properties of the coordinate normalization\<close>




end
